theory Spec2Isabelle
  imports Main "HOL-Library.AList"
begin

section \<open>Data model of \<open>nonconstructive_explicit.py\<close>\<close>

text \<open>
  A \<open>Molecule\<close> object carries a name. Python compares and hashes such objects by
  identity (the class defines neither \<open>__eq__\<close> nor \<open>__hash__\<close>), so two molecules
  with the same name are different dictionary keys. The field \<open>obj_id\<close> stands for
  the identity of the object.
\<close>

datatype Molecule = Molecule (obj_id: nat) (name: string)

text \<open>
  The exceptions \<open>simulate_step\<close> and the functions it calls can raise: \<open>KeyError\<close> from
  a dictionary subscript, \<open>ValueError\<close> from \<open>random.sample\<close> and \<open>random.randrange\<close>.
\<close>

datatype error = KeyError | ValueError

text \<open>
  A Python \<open>dict\<close> keeps its keys in insertion order and \<open>items()\<close> iterates in that
  order, so a dictionary is an association list with distinct keys. Reading
  \<open>d[k]\<close> is \<open>map_of d k\<close> (\<open>None\<close> is the \<open>KeyError\<close>); the assignment
  \<open>d[k] = v\<close> is \<open>AList.update k v d\<close>, which overwrites in place when the key is
  present and appends at the end otherwise.
\<close>

type_synonym amounts = "(Molecule \<times> int) list"

record Reaction =
  reactants_needed :: amounts
  product :: Molecule

record Vessel =
  molecule_types :: "Molecule list"
  molecules :: "Molecule list"
  reactions :: "Reaction list"

text \<open>
  The two calls into the \<open>random\<close> module of one step. A \<open>draw\<close> holds what the
  generator chose: the positions picked by \<open>random.sample\<close> and the index returned
  by \<open>random.randrange\<close>. The library guarantees \<open>valid_draw\<close>.
\<close>

record draw =
  positions :: "nat list"
  slot :: nat

definition valid_draw :: "Vessel \<Rightarrow> int \<Rightarrow> draw \<Rightarrow> bool" where
  "valid_draw v k d \<longleftrightarrow>
     int (length (positions d)) = k \<and> distinct (positions d) \<and>
     list_all (\<lambda>i. i < length (molecules v)) (positions d) \<and>
     slot d < length (molecules v)"

section \<open>Molecule.molecules_to_amounts\<close>

text \<open>First loop: \<open>for type_of_molecule in all_molecules: molecule_amounts[type_of_molecule] = 0\<close>.\<close>

fun zero_amounts :: "Molecule list \<Rightarrow> amounts \<Rightarrow> amounts" where
  "zero_amounts [] molecule_amounts = molecule_amounts"
| "zero_amounts (type_of_molecule # rest) molecule_amounts =
     zero_amounts rest (AList.update type_of_molecule 0 molecule_amounts)"

text \<open>Second loop: \<open>for molecule in molecules: molecule_amounts[molecule] += 1\<close>;
  the augmented assignment reads the key first and raises \<open>KeyError\<close> when it is missing.\<close>

fun count_molecules :: "Molecule list \<Rightarrow> amounts \<Rightarrow> error + amounts" where
  "count_molecules [] molecule_amounts = Inr molecule_amounts"
| "count_molecules (molecule # rest) molecule_amounts =
     (case map_of molecule_amounts molecule of
        None \<Rightarrow> Inl KeyError
      | Some n \<Rightarrow> count_molecules rest (AList.update molecule (n + 1) molecule_amounts))"

definition molecules_to_amounts :: "Molecule list \<Rightarrow> Molecule list \<Rightarrow> error + amounts" where
  "molecules_to_amounts all_molecules ms = count_molecules ms (zero_amounts all_molecules [])"

section \<open>Reaction.can_occur\<close>

text \<open>
  The loop runs over the items of the argument \<open>reactants_amounts\<close> and subscripts
  \<open>self.reactants_needed\<close> with each key. The \<open>else\<close> branch of the \<open>for\<close> is taken
  when the loop ends without \<open>return\<close>.
\<close>

fun can_occur_loop :: "amounts \<Rightarrow> amounts \<Rightarrow> error + bool" where
  "can_occur_loop needed [] = Inr True"
| "can_occur_loop needed ((reactant, amount) # rest) =
     (case map_of needed reactant of
        None \<Rightarrow> Inl KeyError
      | Some n \<Rightarrow> if amount < n then Inr False else can_occur_loop needed rest)"

definition can_occur :: "Reaction \<Rightarrow> amounts \<Rightarrow> error + bool" where
  "can_occur r reactants_amounts = can_occur_loop (reactants_needed r) reactants_amounts"

section \<open>Vessel\<close>

text \<open>\<open>Vessel.__init__\<close>: \<open>range(amount)\<close> is empty for a negative amount.\<close>

definition Vessel_init :: "Molecule list \<Rightarrow> amounts \<Rightarrow> Reaction list \<Rightarrow> Vessel" where
  "Vessel_init types molecule_amounts rs =
     \<lparr>molecule_types = types,
      molecules = concat (map (\<lambda>(molecule, amount). replicate (nat amount) molecule) molecule_amounts),
      reactions = rs\<rparr>"

text \<open>\<open>random.sample(population, k)\<close> raises \<open>ValueError\<close> unless \<open>0 <= k <= len(population)\<close>
  and otherwise returns the elements at the chosen positions.\<close>

definition random_sample :: "Molecule list \<Rightarrow> int \<Rightarrow> nat list \<Rightarrow> error + Molecule list" where
  "random_sample population k chosen =
     (if k < 0 \<or> int (length population) < k then Inl ValueError
      else Inr (map (\<lambda>i. population ! i) chosen))"

text \<open>\<open>random.randrange(n)\<close> raises \<open>ValueError\<close> on an empty range.\<close>

definition random_randrange :: "nat \<Rightarrow> nat \<Rightarrow> error + nat" where
  "random_randrange n chosen = (if n = 0 then Inl ValueError else Inr chosen)"

text \<open>
  The loop \<open>for reaction in self.reactions\<close> of \<open>simulate_step\<close>, with the state threaded
  through: the result is the outcome of the call (an exception or a normal return)
  and the vessel as the call leaves it.
\<close>

fun react_loop :: "Reaction list \<Rightarrow> amounts \<Rightarrow> nat \<Rightarrow> Vessel \<Rightarrow> (error + unit) \<times> Vessel" where
  "react_loop [] reactants_amounts chosen v = (Inr (), v)"
| "react_loop (reaction # rest) reactants_amounts chosen v =
     (case can_occur reaction reactants_amounts of
        Inl e \<Rightarrow> (Inl e, v)
      | Inr True \<Rightarrow>
          (case random_randrange (length (molecules v)) chosen of
             Inl e \<Rightarrow> (Inl e, v)
           | Inr i \<Rightarrow> (Inr (), v\<lparr>molecules := (molecules v)[i := product reaction]\<rparr>))
      | Inr False \<Rightarrow> react_loop rest reactants_amounts chosen v)"

definition simulate_step :: "Vessel \<Rightarrow> int \<Rightarrow> draw \<Rightarrow> (error + unit) \<times> Vessel" where
  "simulate_step v number_to_select d =
     (case random_sample (molecules v) number_to_select (positions d) of
        Inl e \<Rightarrow> (Inl e, v)
      | Inr reactants \<Rightarrow>
          (case molecules_to_amounts (molecule_types v) reactants of
             Inl e \<Rightarrow> (Inl e, v)
           | Inr reactants_amounts \<Rightarrow> react_loop (reactions v) reactants_amounts (slot d) v))"

text \<open>The counts a step tallies from its sample, when sampling and tallying succeed.\<close>

definition sampled_amounts :: "Vessel \<Rightarrow> int \<Rightarrow> draw \<Rightarrow> error + amounts" where
  "sampled_amounts v number_to_select d =
     (case random_sample (molecules v) number_to_select (positions d) of
        Inl e \<Rightarrow> Inl e
      | Inr reactants \<Rightarrow> molecules_to_amounts (molecule_types v) reactants)"

section \<open>Successive steps\<close>

text \<open>
  The calls \<open>vessel.simulate_step(number_to_select)\<close> that a caller makes one after the
  other on the same vessel, one for each element of the list of draws, as the loop
  \<open>for i in range(iters)\<close> of \<open>simulate_basic\<close> does at the start of every iteration. An
  exception ends the sequence. Only the calls are part of this function: what
  \<open>simulate_basic\<close> does between two calls (the tally of the population, the percentages
  in floating point, the plotting) reads the vessel, does not write to it, and is left
  out.
\<close>

fun simulate_steps :: "Vessel \<Rightarrow> int \<Rightarrow> draw list \<Rightarrow> (error + unit) \<times> Vessel" where
  "simulate_steps v number_to_select [] = (Inr (), v)"
| "simulate_steps v number_to_select (d # ds) =
     (case simulate_step v number_to_select d of
        (Inl e, v') \<Rightarrow> (Inl e, v')
      | (Inr u, v') \<Rightarrow> simulate_steps v' number_to_select ds)"

section \<open>Notions of the specification\<close>

text \<open>
  The rule resolution as the specification words it: scan the rules in declaration
  order and return the first whose \<open>can_occur\<close> returns true, none if there is no such
  rule.
\<close>

definition firstMatch :: "Reaction list \<Rightarrow> amounts \<Rightarrow> Reaction option" where
  "firstMatch rs counts = find (\<lambda>r. can_occur r counts = Inr True) rs"

text \<open>
  A vessel as the specification's data model wants it: a non-empty population of
  declared types, and rules whose requirement has an entry for every declared type
  and whose product is declared.
\<close>

definition well_formed :: "Vessel \<Rightarrow> bool" where
  "well_formed v \<longleftrightarrow>
     molecules v \<noteq> [] \<and> set (molecules v) \<subseteq> set (molecule_types v) \<and>
     list_all (\<lambda>r. set (molecule_types v) \<subseteq> fst ` set (reactants_needed r) \<and>
                    product r \<in> set (molecule_types v)) (reactions v)"

section \<open>Example data\<close>

definition mol_A :: Molecule where "mol_A = Molecule 0 ''A''"
definition mol_B :: Molecule where "mol_B = Molecule 1 ''B''"
definition mol_C :: Molecule where "mol_C = Molecule 2 ''C''"

text \<open>The reaction table \<open>simulate_basic\<close> builds for \<open>all_molecules = [A, B]\<close>:
  the pairs \<open>(i, j)\<close> in the order \<open>(0,0), (0,1), (1,0), (1,1)\<close>, with product \<open>A\<close>
  only for \<open>i = j = 1\<close>.\<close>

definition basic_reactions :: "Reaction list" where
  "basic_reactions =
     [\<lparr>reactants_needed = [(mol_A, 2), (mol_B, 0)], product = mol_B\<rparr>,
      \<lparr>reactants_needed = [(mol_A, 1), (mol_B, 1)], product = mol_B\<rparr>,
      \<lparr>reactants_needed = [(mol_A, 1), (mol_B, 1)], product = mol_B\<rparr>,
      \<lparr>reactants_needed = [(mol_A, 0), (mol_B, 2)], product = mol_A\<rparr>]"

text \<open>The vessel of \<open>simulate_basic\<close> with two molecules of each type instead of 5000.\<close>

definition small_vessel :: Vessel where
  "small_vessel = Vessel_init [mol_A, mol_B] [(mol_A, 2), (mol_B, 2)] basic_reactions"

text \<open>A table whose first rule has an empty requirement, and a vessel holding it.\<close>

definition partial_reactions :: "Reaction list" where
  "partial_reactions =
     [\<lparr>reactants_needed = [], product = mol_B\<rparr>,
      \<lparr>reactants_needed = [(mol_A, 0), (mol_B, 0)], product = mol_A\<rparr>]"

definition partial_vessel :: Vessel where
  "partial_vessel = Vessel_init [mol_A, mol_B] [(mol_A, 2), (mol_B, 2)] partial_reactions"

text \<open>A configuration that omits the declared type \<open>B\<close> from the initial amounts and
  whose only rule names the undeclared type \<open>C\<close> in its requirement and as its product.\<close>

definition undeclared_reaction :: Reaction where
  "undeclared_reaction =
     \<lparr>reactants_needed = [(mol_A, 0), (mol_B, 0), (mol_C, 1)], product = mol_C\<rparr>"

definition undeclared_vessel :: Vessel where
  "undeclared_vessel = Vessel_init [mol_A, mol_B] [(mol_A, 2)] [undeclared_reaction]"

text \<open>A vessel without molecules whose only rule is satisfied by the all-zero tally.\<close>

definition empty_vessel :: Vessel where
  "empty_vessel =
     Vessel_init [mol_A, mol_B] [(mol_A, 0), (mol_B, 0)]
       [\<lparr>reactants_needed = [(mol_A, 0), (mol_B, 0)], product = mol_A\<rparr>]"

section \<open>Lemmas on the tally\<close>

lemma zero_amounts_keys:
  "fst ` set (zero_amounts ts d) = fst ` set d \<union> set ts"
  by (induction ts arbitrary: d) (auto simp: AList.dom_update)

lemma zero_amounts_distinct:
  "distinct (map fst d) \<Longrightarrow> distinct (map fst (zero_amounts ts d))"
  by (induction ts arbitrary: d) (auto simp: AList.distinct_update)

lemma zero_amounts_lookup:
  "map_of (zero_amounts ts d) t = (if t \<in> set ts then Some 0 else map_of d t)"
  by (induction ts arbitrary: d) (auto simp: AList.update_conv')

lemma update_present_keys:
  "map_of d k = Some n \<Longrightarrow> map fst (AList.update k w d) = map fst d"
  by (induction d) (auto split: if_splits)

lemma key_present:
  "k \<in> fst ` set d \<Longrightarrow> \<exists>n. map_of d k = Some n"
  by (cases "map_of d k") (auto simp: map_of_eq_None_iff)

lemma count_molecules_ok:
  "set ms \<subseteq> fst ` set d \<Longrightarrow>
   \<exists>d'. count_molecules ms d = Inr d' \<and> map fst d' = map fst d \<and>
        (\<forall>t n. map_of d t = Some n \<longrightarrow> map_of d' t = Some (n + int (count_list ms t)))"
proof (induction ms arbitrary: d)
  case Nil
  then show ?case by simp
next
  case (Cons m ms)
  from Cons.prems have "m \<in> fst ` set d" by simp
  from key_present[OF this] obtain n where n: "map_of d m = Some n" ..
  let ?d1 = "AList.update m (n + 1) d"
  have keys1: "map fst ?d1 = map fst d" using n by (rule update_present_keys)
  have "set ms \<subseteq> fst ` set ?d1" using Cons.prems by (auto simp: AList.dom_update)
  from Cons.IH[OF this] obtain d' where d':
    "count_molecules ms ?d1 = Inr d'" "map fst d' = map fst ?d1"
    "\<forall>t n. map_of ?d1 t = Some n \<longrightarrow> map_of d' t = Some (n + int (count_list ms t))"
    by blast
  have "\<forall>t k. map_of d t = Some k \<longrightarrow> map_of d' t = Some (k + int (count_list (m # ms) t))"
  proof (intro allI impI)
    fix t k assume tk: "map_of d t = Some k"
    show "map_of d' t = Some (k + int (count_list (m # ms) t))"
    proof (cases "t = m")
      case True
      then have "map_of ?d1 t = Some (n + 1)" by (simp add: AList.update_conv')
      with d'(3) have "map_of d' t = Some (n + 1 + int (count_list ms t))" by blast
      with True tk n show ?thesis by simp
    next
      case False
      then have "map_of ?d1 t = Some k" using tk by (simp add: AList.update_conv')
      with d'(3) have "map_of d' t = Some (k + int (count_list ms t))" by blast
      with False show ?thesis by simp
    qed
  qed
  with d'(1,2) keys1 n show ?case by simp
qed

lemma molecules_to_amounts_ok:
  assumes "set sample \<subseteq> set all_types"
  shows "\<exists>d. molecules_to_amounts all_types sample = Inr d \<and>
           fst ` set d = set all_types \<and> distinct (map fst d) \<and>
           (\<forall>t \<in> set all_types. map_of d t = Some (int (count_list sample t)))"
proof -
  let ?z = "zero_amounts all_types []"
  have keys: "fst ` set ?z = set all_types" by (simp add: zero_amounts_keys)
  have dist: "distinct (map fst ?z)" by (simp add: zero_amounts_distinct)
  from assms keys have "set sample \<subseteq> fst ` set ?z" by simp
  from count_molecules_ok[OF this] obtain d where d:
    "count_molecules sample ?z = Inr d" "map fst d = map fst ?z"
    "\<forall>t n. map_of ?z t = Some n \<longrightarrow> map_of d t = Some (n + int (count_list sample t))"
    by blast
  have "fst ` set d = set all_types" using d(2) keys by (metis list.set_map)
  moreover have "distinct (map fst d)" using d(2) dist by simp
  moreover have "\<forall>t \<in> set all_types. map_of d t = Some (int (count_list sample t))"
    using d(3) by (simp add: zero_amounts_lookup)
  ultimately show ?thesis using d(1) by (simp add: molecules_to_amounts_def)
qed

lemma count_molecules_missing:
  "\<not> set ms \<subseteq> fst ` set d \<Longrightarrow> count_molecules ms d = Inl KeyError"
proof (induction ms arbitrary: d)
  case Nil
  then show ?case by simp
next
  case (Cons m ms)
  show ?case
  proof (cases "map_of d m")
    case None
    then show ?thesis by simp
  next
    case (Some n)
    then have "m \<in> fst ` set d" by (simp add: map_of_eq_Some_iff image_iff) (metis fst_conv map_of_SomeD)
    with Cons.prems have "\<not> set ms \<subseteq> fst ` set (AList.update m (n + 1) d)"
      by (auto simp: AList.dom_update)
    from Cons.IH[OF this] Some show ?thesis by simp
  qed
qed

lemma molecules_to_amounts_missing:
  "\<not> set sample \<subseteq> set all_types \<Longrightarrow> molecules_to_amounts all_types sample = Inl KeyError"
  by (simp add: molecules_to_amounts_def count_molecules_missing zero_amounts_keys)

text \<open>The requirements of \<open>basic_reactions\<close> are the tallies \<open>simulate_basic\<close> computes
  for the four pairs of reactants.\<close>

lemma basic_reactions_requirements:
  "map (\<lambda>r. Inr (reactants_needed r)) basic_reactions =
   [molecules_to_amounts [mol_A, mol_B] [mol_A, mol_A],
    molecules_to_amounts [mol_A, mol_B] [mol_A, mol_B],
    molecules_to_amounts [mol_A, mol_B] [mol_B, mol_A],
    molecules_to_amounts [mol_A, mol_B] [mol_B, mol_B]]"
  by code_simp

section \<open>Lemmas on \<open>can_occur\<close>\<close>

lemma can_occur_loop_True_iff:
  "can_occur_loop needed counts = Inr True \<longleftrightarrow>
   (\<forall>(t, a) \<in> set counts. \<exists>n. map_of needed t = Some n \<and> n \<le> a)"
  by (induction needed counts rule: can_occur_loop.induct) (auto split: option.splits if_splits)

lemma can_occur_loop_total:
  "fst ` set counts \<subseteq> fst ` set needed \<Longrightarrow>
   can_occur_loop needed counts =
     Inr (\<forall>(t, a) \<in> set counts. \<exists>n. map_of needed t = Some n \<and> n \<le> a)"
proof (induction counts)
  case Nil
  then show ?case by simp
next
  case (Cons p counts)
  obtain t a where p: "p = (t, a)" by (cases p)
  with Cons.prems have "t \<in> fst ` set needed" by simp
  from key_present[OF this] obtain n where n: "map_of needed t = Some n" ..
  from Cons have IH: "can_occur_loop needed counts =
     Inr (\<forall>(t, a) \<in> set counts. \<exists>n. map_of needed t = Some n \<and> n \<le> a)" by simp
  show ?case using p n IH by auto
qed

lemma can_occur_loop_append:
  "can_occur_loop needed pre = Inr True \<Longrightarrow>
   can_occur_loop needed (pre @ rest) = can_occur_loop needed rest"
  by (induction needed pre rule: can_occur_loop.induct) (auto split: option.splits if_splits)

lemma can_occur_loop_below:
  assumes "can_occur_loop needed pre = Inr True" "map_of needed t = Some n" "a < n"
  shows "can_occur_loop needed (pre @ (t, a) # post) = Inr False"
  using assms by (simp add: can_occur_loop_append)

lemma can_occur_loop_missing:
  "\<exists>(t, a) \<in> set counts. map_of needed t = None \<Longrightarrow>
   can_occur_loop needed counts = Inl KeyError \<or> can_occur_loop needed counts = Inr False"
proof (induction needed counts rule: can_occur_loop.induct)
  case (1 needed)
  then show ?case by simp
next
  case (2 needed reactant amount rest)
  show ?case
  proof (cases "map_of needed reactant")
    case None
    then show ?thesis by simp
  next
    case (Some n)
    with "2.prems" have "\<exists>(t, a) \<in> set rest. map_of needed t = None" by auto
    with "2.IH" Some show ?thesis by (cases "amount < n") auto
  qed
qed

lemma can_occur_loop_cong:
  "\<forall>t \<in> fst ` set counts. map_of needed1 t = map_of needed2 t \<Longrightarrow>
   can_occur_loop needed1 counts = can_occur_loop needed2 counts"
  by (induction counts) (auto split: option.splits)

lemma can_occur_loop_empty_needed:
  "can_occur_loop [] counts = (if counts = [] then Inr True else Inl KeyError)"
  by (cases counts) auto

lemma same_keys_requirement:
  assumes "distinct (map fst counts)" "distinct (map fst needed)"
    "fst ` set counts = fst ` set needed"
  shows "(\<forall>(t, a) \<in> set counts. \<exists>n. map_of needed t = Some n \<and> n \<le> a) \<longleftrightarrow>
         (\<forall>(t, n) \<in> set needed. \<exists>a. map_of counts t = Some a \<and> n \<le> a)"
proof
  assume L: "\<forall>(t, a) \<in> set counts. \<exists>n. map_of needed t = Some n \<and> n \<le> a"
  show "\<forall>(t, n) \<in> set needed. \<exists>a. map_of counts t = Some a \<and> n \<le> a"
  proof (clarify)
    fix t n assume tn: "(t, n) \<in> set needed"
    then have "t \<in> fst ` set counts" using assms(3) by force
    then obtain a where a: "(t, a) \<in> set counts" by auto
    with L obtain n' where "map_of needed t = Some n'" "n' \<le> a" by auto
    moreover have "map_of needed t = Some n" using tn assms(2) by simp
    ultimately have "n \<le> a" by simp
    moreover have "map_of counts t = Some a" using a assms(1) by simp
    ultimately show "\<exists>a. map_of counts t = Some a \<and> n \<le> a" by simp
  qed
next
  assume R: "\<forall>(t, n) \<in> set needed. \<exists>a. map_of counts t = Some a \<and> n \<le> a"
  show "\<forall>(t, a) \<in> set counts. \<exists>n. map_of needed t = Some n \<and> n \<le> a"
  proof (clarify)
    fix t a assume ta: "(t, a) \<in> set counts"
    then have "t \<in> fst ` set needed" using assms(3) by force
    then obtain n where n: "(t, n) \<in> set needed" by auto
    with R obtain a' where "map_of counts t = Some a'" "n \<le> a'" by auto
    moreover have "map_of counts t = Some a" using ta assms(1) by simp
    ultimately have "n \<le> a" by simp
    moreover have "map_of needed t = Some n" using n assms(2) by simp
    ultimately show "\<exists>n. map_of needed t = Some n \<and> n \<le> a" by simp
  qed
qed

section \<open>Lemmas on the step\<close>

lemma react_loop_length:
  "length (molecules (snd (react_loop rs a j v))) = length (molecules v)"
  by (induction rs) (auto simp: random_randrange_def split: sum.splits bool.splits)

lemma react_loop_error:
  "fst (react_loop rs a j v) = Inl e \<Longrightarrow> snd (react_loop rs a j v) = v"
  by (induction rs) (auto simp: random_randrange_def split: sum.splits bool.splits if_splits)

lemma react_loop_no_match:
  "\<forall>r \<in> set rs. can_occur r a \<noteq> Inr True \<Longrightarrow> snd (react_loop rs a j v) = v"
  by (induction rs) (auto split: sum.splits bool.splits)

lemma react_loop_skip:
  "\<forall>q \<in> set pre. can_occur q a = Inr False \<Longrightarrow>
   react_loop (pre @ rest) a j v = react_loop rest a j v"
  by (induction pre) auto

lemma react_loop_match:
  assumes "\<forall>q \<in> set pre. can_occur q a = Inr False" "can_occur r a = Inr True"
    "molecules v \<noteq> []"
  shows "react_loop (pre @ r # post) a j v =
           (Inr (), v\<lparr>molecules := (molecules v)[j := product r]\<rparr>)"
  using assms by (simp add: react_loop_skip random_randrange_def)

lemma react_loop_raise:
  assumes "\<forall>q \<in> set pre. can_occur q a = Inr False" "can_occur r a = Inl e"
  shows "react_loop (pre @ r # post) a j v = (Inl e, v)"
  using assms by (simp add: react_loop_skip)

lemma react_loop_frame:
  "molecule_types (snd (react_loop rs a j v)) = molecule_types v \<and>
   reactions (snd (react_loop rs a j v)) = reactions v"
  by (induction rs) (auto simp: random_randrange_def split: sum.splits bool.splits)

lemma react_loop_applied:
  "fst (react_loop rs a j v) = Inr () \<Longrightarrow> \<exists>r \<in> set rs. can_occur r a = Inr True \<Longrightarrow>
   \<exists>pre r post. rs = pre @ r # post \<and> (\<forall>q \<in> set pre. can_occur q a = Inr False) \<and>
      can_occur r a = Inr True \<and>
      snd (react_loop rs a j v) = v\<lparr>molecules := (molecules v)[j := product r]\<rparr>"
proof (induction rs)
  case Nil
  then show ?case by simp
next
  case (Cons q rs)
  show ?case
  proof (cases "can_occur q a")
    case (Inl e)
    with Cons.prems(1) show ?thesis by simp
  next
    case (Inr b)
    show ?thesis
    proof (cases b)
      case True
      with Inr Cons.prems(1)
      have "snd (react_loop (q # rs) a j v) = v\<lparr>molecules := (molecules v)[j := product q]\<rparr>"
        by (auto simp: random_randrange_def split: if_splits)
      with True Inr have "q # rs = [] @ q # rs \<and> (\<forall>q' \<in> set []. can_occur q' a = Inr False) \<and>
        can_occur q a = Inr True \<and>
        snd (react_loop (q # rs) a j v) = v\<lparr>molecules := (molecules v)[j := product q]\<rparr>"
        by simp
      then show ?thesis by blast
    next
      case False
      with Inr Cons.prems have "fst (react_loop rs a j v) = Inr ()"
        "\<exists>r \<in> set rs. can_occur r a = Inr True" by auto
      from Cons.IH[OF this] obtain pre r post where p: "rs = pre @ r # post"
        "\<forall>q' \<in> set pre. can_occur q' a = Inr False" "can_occur r a = Inr True"
        "snd (react_loop rs a j v) = v\<lparr>molecules := (molecules v)[j := product r]\<rparr>"
        by blast
      from p False Inr have "q # rs = (q # pre) @ r # post \<and>
        (\<forall>q' \<in> set (q # pre). can_occur q' a = Inr False) \<and> can_occur r a = Inr True \<and>
        snd (react_loop (q # rs) a j v) = v\<lparr>molecules := (molecules v)[j := product r]\<rparr>"
        by simp
      then show ?thesis by blast
    qed
  qed
qed

lemma simulate_step_sampled:
  "sampled_amounts v k d = Inr counts \<Longrightarrow>
   simulate_step v k d = react_loop (reactions v) counts (slot d) v"
  by (auto simp: sampled_amounts_def simulate_step_def split: sum.splits)

lemma simulate_step_not_sampled:
  "sampled_amounts v k d = Inl e \<Longrightarrow> simulate_step v k d = (Inl e, v)"
  by (auto simp: sampled_amounts_def simulate_step_def split: sum.splits)

lemma simulate_step_length:
  "length (molecules (snd (simulate_step v k d))) = length (molecules v)"
  by (simp add: simulate_step_def react_loop_length split: sum.splits)

lemma simulate_step_error:
  "fst (simulate_step v k d) = Inl e \<Longrightarrow> snd (simulate_step v k d) = v"
  by (cases "sampled_amounts v k d")
     (simp_all add: simulate_step_not_sampled simulate_step_sampled react_loop_error)

section \<open>Lemmas on well-formed vessels and successive steps\<close>

lemma react_loop_returns:
  "\<forall>r \<in> set rs. \<exists>b. can_occur r a = Inr b \<Longrightarrow> molecules v \<noteq> [] \<Longrightarrow>
   fst (react_loop rs a j v) = Inr ()"
  by (induction rs) (auto simp: random_randrange_def split: bool.splits)

lemma react_loop_molecules:
  "set (molecules (snd (react_loop rs a j v))) \<subseteq> set (molecules v) \<union> product ` set rs"
proof (induction rs)
  case Nil
  then show ?case by simp
next
  case (Cons r rs)
  have "set ((molecules v)[j := product r]) \<subseteq> insert (product r) (set (molecules v))"
    by (rule set_update_subset_insert)
  with Cons show ?case
    by (auto simp: random_randrange_def split: sum.splits bool.splits)
qed

lemma simulate_step_frame:
  "molecule_types (snd (simulate_step v k d)) = molecule_types v \<and>
   reactions (snd (simulate_step v k d)) = reactions v"
  by (cases "sampled_amounts v k d")
     (simp_all add: simulate_step_not_sampled simulate_step_sampled react_loop_frame)

lemma valid_draw_length:
  "length (molecules v') = length (molecules v) \<Longrightarrow> valid_draw v' k d = valid_draw v k d"
  by (simp add: valid_draw_def)

lemma valid_draw_range:
  assumes "valid_draw v k d"
  shows "0 \<le> k \<and> k \<le> int (length (molecules v))"
proof -
  from assms have d: "distinct (positions d)" and k: "int (length (positions d)) = k"
    and b: "set (positions d) \<subseteq> {..<length (molecules v)}"
    by (auto simp: valid_draw_def list_all_iff)
  from d have "length (positions d) = card (set (positions d))"
    by (simp add: distinct_card)
  also from b have "\<dots> \<le> card {..<length (molecules v)}"
    by (intro card_mono) simp_all
  finally have "length (positions d) \<le> length (molecules v)" by simp
  with k show ?thesis by auto
qed

lemma well_formed_sampled:
  assumes "well_formed v" "valid_draw v k d"
  shows "\<exists>counts. sampled_amounts v k d = Inr counts \<and>
           fst ` set counts = set (molecule_types v)"
proof -
  from valid_draw_range[OF assms(2)]
  have s: "random_sample (molecules v) k (positions d) =
             Inr (map (\<lambda>i. molecules v ! i) (positions d))"
    by (simp add: random_sample_def)
  from assms(2) have "\<forall>i \<in> set (positions d). i < length (molecules v)"
    by (simp add: valid_draw_def list_all_iff)
  then have "set (map (\<lambda>i. molecules v ! i) (positions d)) \<subseteq> set (molecules v)"
    by auto
  with assms(1) have "set (map (\<lambda>i. molecules v ! i) (positions d)) \<subseteq> set (molecule_types v)"
    by (auto simp: well_formed_def)
  from molecules_to_amounts_ok[OF this] s show ?thesis
    by (auto simp: sampled_amounts_def)
qed

lemma well_formed_step:
  assumes "well_formed v" "valid_draw v k d"
  shows "fst (simulate_step v k d) = Inr () \<and> well_formed (snd (simulate_step v k d))"
proof -
  from well_formed_sampled[OF assms] obtain counts where
    c: "sampled_amounts v k d = Inr counts" "fst ` set counts = set (molecule_types v)"
    by blast
  have step: "simulate_step v k d = react_loop (reactions v) counts (slot d) v"
    using c(1) by (rule simulate_step_sampled)
  have "\<forall>r \<in> set (reactions v). \<exists>b. can_occur r counts = Inr b"
  proof
    fix r assume "r \<in> set (reactions v)"
    with assms(1) c(2) have "fst ` set counts \<subseteq> fst ` set (reactants_needed r)"
      by (simp add: well_formed_def list_all_iff)
    from can_occur_loop_total[OF this] show "\<exists>b. can_occur r counts = Inr b"
      by (simp add: can_occur_def)
  qed
  moreover from assms(1) have ne: "molecules v \<noteq> []" by (simp add: well_formed_def)
  ultimately have ok: "fst (simulate_step v k d) = Inr ()"
    by (simp add: step react_loop_returns)
  let ?v' = "snd (simulate_step v k d)"
  have fr: "molecule_types ?v' = molecule_types v" "reactions ?v' = reactions v"
    by (simp_all add: simulate_step_frame)
  have len: "length (molecules ?v') = length (molecules v)" by (rule simulate_step_length)
  with ne have ne': "molecules ?v' \<noteq> []" by auto
  have "set (molecules ?v') \<subseteq> set (molecules v) \<union> product ` set (reactions v)"
    by (simp add: step react_loop_molecules)
  also from assms(1) have "\<dots> \<subseteq> set (molecule_types v)"
    by (auto simp: well_formed_def list_all_iff)
  finally have "set (molecules ?v') \<subseteq> set (molecule_types v)" .
  with fr ne' assms(1) have "well_formed ?v'" by (simp add: well_formed_def)
  with ok show ?thesis by simp
qed

lemma react_loop_empty_population:
  assumes "\<forall>q \<in> set pre. can_occur q a = Inr False" "can_occur r a = Inr True"
    "molecules v = []"
  shows "react_loop (pre @ r # post) a j v = (Inl ValueError, v)"
  using assms by (simp add: react_loop_skip random_randrange_def)

lemma react_loop_first_match:
  "\<forall>r \<in> set rs. \<exists>b. can_occur r a = Inr b \<Longrightarrow> molecules v \<noteq> [] \<Longrightarrow>
   react_loop rs a j v =
     (Inr (), case firstMatch rs a of
                None \<Rightarrow> v
              | Some r \<Rightarrow> v\<lparr>molecules := (molecules v)[j := product r]\<rparr>)"
  by (induction rs) (auto simp: firstMatch_def random_randrange_def split: bool.splits)

lemma sampled_ok:
  assumes "set (molecules v) \<subseteq> set (molecule_types v)" "valid_draw v k d"
  shows "\<exists>counts. sampled_amounts v k d = Inr counts \<and>
           fst ` set counts = set (molecule_types v)"
proof -
  from valid_draw_range[OF assms(2)]
  have s: "random_sample (molecules v) k (positions d) =
             Inr (map (\<lambda>i. molecules v ! i) (positions d))"
    by (simp add: random_sample_def)
  from assms(2) have "\<forall>i \<in> set (positions d). i < length (molecules v)"
    by (simp add: valid_draw_def list_all_iff)
  then have "set (map (\<lambda>i. molecules v ! i) (positions d)) \<subseteq> set (molecules v)"
    by auto
  with assms(1) have "set (map (\<lambda>i. molecules v ! i) (positions d)) \<subseteq> set (molecule_types v)"
    by auto
  from molecules_to_amounts_ok[OF this] s show ?thesis
    by (auto simp: sampled_amounts_def)
qed

lemma step_returns:
  assumes "set (molecules v) \<subseteq> set (molecule_types v)" and "molecules v \<noteq> []"
    and "list_all (\<lambda>r. set (molecule_types v) \<subseteq> fst ` set (reactants_needed r)) (reactions v)"
    and "valid_draw v k d"
  shows "\<exists>counts. sampled_amounts v k d = Inr counts \<and>
           simulate_step v k d =
             (Inr (), case firstMatch (reactions v) counts of
                        None \<Rightarrow> v
                      | Some r \<Rightarrow> v\<lparr>molecules := (molecules v)[slot d := product r]\<rparr>)"
proof -
  from sampled_ok[OF assms(1,4)] obtain counts where
    c: "sampled_amounts v k d = Inr counts" "fst ` set counts = set (molecule_types v)"
    by blast
  have "\<forall>r \<in> set (reactions v). \<exists>b. can_occur r counts = Inr b"
  proof
    fix r assume "r \<in> set (reactions v)"
    with assms(3) c(2) have "fst ` set counts \<subseteq> fst ` set (reactants_needed r)"
      by (simp add: list_all_iff)
    from can_occur_loop_total[OF this] show "\<exists>b. can_occur r counts = Inr b"
      by (simp add: can_occur_def)
  qed
  from react_loop_first_match[OF this assms(2)] c(1) show ?thesis
    by (simp add: simulate_step_sampled)
qed

lemma step_samples_undeclared:
  assumes "0 \<le> k" "k \<le> int (length (molecules v))"
    and "\<exists>i \<in> set (positions d). molecules v ! i \<notin> set (molecule_types v)"
  shows "simulate_step v k d = (Inl KeyError, v)"
proof -
  from assms(1,2) have s: "random_sample (molecules v) k (positions d) =
      Inr (map (\<lambda>i. molecules v ! i) (positions d))"
    by (simp add: random_sample_def)
  from assms(3) have "\<not> set (map (\<lambda>i. molecules v ! i) (positions d)) \<subseteq> set (molecule_types v)"
    by auto
  from molecules_to_amounts_missing[OF this] s show ?thesis
    by (simp add: simulate_step_def)
qed

lemma Vessel_init_population:
  "set (molecules (Vessel_init types amts rs)) \<subseteq> fst ` set amts"
  by (force simp: Vessel_init_def)

lemma simulate_steps_well_formed:
  assumes "well_formed v" "list_all (valid_draw v k) ds"
  shows "fst (simulate_steps v k ds) = Inr () \<and>
         well_formed (snd (simulate_steps v k ds)) \<and>
         length (molecules (snd (simulate_steps v k ds))) = length (molecules v) \<and>
         reactions (snd (simulate_steps v k ds)) = reactions v"
  using assms
proof (induction ds arbitrary: v)
  case Nil
  then show ?case by simp
next
  case (Cons d ds)
  from Cons.prems have vd: "valid_draw v k d" by simp
  define v' where "v' = snd (simulate_step v k d)"
  from well_formed_step[OF Cons.prems(1) vd]
  have st: "simulate_step v k d = (Inr (), v')" and wf': "well_formed v'"
    by (simp_all add: v'_def prod_eq_iff)
  have len: "length (molecules v') = length (molecules v)"
    using simulate_step_length[of v k d] st by simp
  have rs: "reactions v' = reactions v"
    using simulate_step_frame[of v k d] st by simp
  from Cons.prems(2) have "list_all (valid_draw v' k) ds"
    by (simp add: list_all_iff valid_draw_length[OF len])
  from Cons.IH[OF wf' this] len rs st show ?case by simp
qed

section \<open>The claims\<close>

text \<open>
  C1. Whatever the sample size, the random draws and the rules, the population has the
  same length after a call of \<open>simulate_step\<close> as before it, also when the call
  raises.
\<close>

theorem simulate_step_preserves_length:
  "length (molecules (snd (simulate_step v k d))) = length (molecules v)"
  by (rule simulate_step_length)

theorem simulate_step_preserves_length_witness:
  "length (molecules small_vessel) = 4 \<and>
   length (molecules (snd (simulate_step small_vessel 2 \<lparr>positions = [0, 2], slot = 1\<rparr>))) = 4"
proof -
  have "length (molecules small_vessel) = 4" by code_simp
  with simulate_step_preserves_length[of small_vessel 2 "\<lparr>positions = [0, 2], slot = 1\<rparr>"]
  show ?thesis by simp
qed

text \<open>
  C4. When every element of the sample occurs in \<open>all_types\<close>, \<open>molecules_to_amounts\<close>
  returns a dictionary whose keys are exactly the elements of \<open>all_types\<close> and which maps
  each of them to its number of occurrences in the sample (0 when it does not occur,
  so an empty sample gives zeros only).
\<close>

theorem molecules_to_amounts_total:
  assumes "set sample \<subseteq> set all_types"
  shows "\<exists>d. molecules_to_amounts all_types sample = Inr d \<and>
           fst ` set d = set all_types \<and> distinct (map fst d) \<and>
           (\<forall>t \<in> set all_types. map_of d t = Some (int (count_list sample t)))"
  using assms by (rule molecules_to_amounts_ok)

theorem molecules_to_amounts_total_witness:
  "set [mol_B, mol_B] \<subseteq> set [mol_A, mol_B] \<and>
   (\<exists>d. molecules_to_amounts [mol_A, mol_B] [mol_B, mol_B] = Inr d \<and>
        fst ` set d = set [mol_A, mol_B] \<and> distinct (map fst d) \<and>
        (\<forall>t \<in> set [mol_A, mol_B]. map_of d t = Some (int (count_list [mol_B, mol_B] t))))"
proof -
  have h: "set [mol_B, mol_B] \<subseteq> set [mol_A, mol_B]" by simp
  from molecules_to_amounts_total[OF h] h show ?thesis by blast
qed

text \<open>
  C5. When no rule of the table returns true from \<open>can_occur\<close> on the counts tallied
  from the sample, the step leaves the vessel as it was: every position of the
  population holds the value it held before.
\<close>

theorem no_match_population_unchanged:
  assumes "sampled_amounts v k d = Inr counts"
    and "\<forall>r \<in> set (reactions v). can_occur r counts \<noteq> Inr True"
  shows "snd (simulate_step v k d) = v \<and>
         (\<forall>i < length (molecules v). molecules (snd (simulate_step v k d)) ! i = molecules v ! i)"
  using assms by (simp add: simulate_step_sampled react_loop_no_match)

theorem no_match_population_unchanged_witness:
  "sampled_amounts small_vessel 1 \<lparr>positions = [0], slot = 3\<rparr> = Inr [(mol_A, 1), (mol_B, 0)] \<and>
   list_all (\<lambda>r. can_occur r [(mol_A, 1), (mol_B, 0)] \<noteq> Inr True) (reactions small_vessel) \<and>
   snd (simulate_step small_vessel 1 \<lparr>positions = [0], slot = 3\<rparr>) = small_vessel"
proof -
  have h1: "sampled_amounts small_vessel 1 \<lparr>positions = [0], slot = 3\<rparr> = Inr [(mol_A, 1), (mol_B, 0)]"
    by code_simp
  have h2: "\<forall>r \<in> set (reactions small_vessel). can_occur r [(mol_A, 1), (mol_B, 0)] \<noteq> Inr True"
    by code_simp
  from no_match_population_unchanged[OF h1 h2] h1 h2 show ?thesis by (simp add: list_all_iff)
qed


text \<open>
  C6, as stated, fails. In \<open>partial_vessel\<close> the second rule is satisfied by the tallied
  counts, but the first rule raises \<open>KeyError\<close> and no position is overwritten. In
  \<open>empty_vessel\<close> the only rule is satisfied, but \<open>random.randrange\<close> raises
  \<open>ValueError\<close> on the empty population and nothing is overwritten either.
\<close>

theorem satisfied_rule_not_applied_counterexample:
  "sampled_amounts partial_vessel 2 \<lparr>positions = [0, 2], slot = 3\<rparr> =
     Inr [(mol_A, 1), (mol_B, 1)] \<and>
   reactions partial_vessel ! 1 = \<lparr>reactants_needed = [(mol_A, 0), (mol_B, 0)], product = mol_A\<rparr> \<and>
   can_occur \<lparr>reactants_needed = [(mol_A, 0), (mol_B, 0)], product = mol_A\<rparr>
     [(mol_A, 1), (mol_B, 1)] = Inr True \<and>
   simulate_step partial_vessel 2 \<lparr>positions = [0, 2], slot = 3\<rparr> =
     (Inl KeyError, partial_vessel) \<and>
   molecules partial_vessel ! 3 = mol_B \<and>
   sampled_amounts empty_vessel 0 \<lparr>positions = [], slot = 0\<rparr> =
     Inr [(mol_A, 0), (mol_B, 0)] \<and>
   reactions empty_vessel ! 0 = \<lparr>reactants_needed = [(mol_A, 0), (mol_B, 0)], product = mol_A\<rparr> \<and>
   can_occur \<lparr>reactants_needed = [(mol_A, 0), (mol_B, 0)], product = mol_A\<rparr>
     [(mol_A, 0), (mol_B, 0)] = Inr True \<and>
   simulate_step empty_vessel 0 \<lparr>positions = [], slot = 0\<rparr> = (Inl ValueError, empty_vessel)"
  by code_simp

text \<open>
  C6, amended. When the scan reaches a satisfied rule, that is when the counts are
  tallied and every rule before the first satisfied rule returns false, and the
  position chosen by \<open>random.randrange\<close> lies in the population, the step returns
  normally, exactly that position is overwritten with the product of that rule, and
  every other position, the declared types and the rules keep their values. When the
  first rule that does not return false raises, the step raises the same error; when
  the first satisfied rule is reached on an empty population, the step raises
  \<open>ValueError\<close>. Every step that raises leaves the whole vessel unchanged.
\<close>

theorem step_overwrites_one_slot:
  "(sampled_amounts v k d = Inr counts \<and> reactions v = pre @ r # post \<and>
    (\<forall>q \<in> set pre. can_occur q counts = Inr False) \<and> can_occur r counts = Inr True \<and>
    slot d < length (molecules v) \<longrightarrow>
      simulate_step v k d = (Inr (), v\<lparr>molecules := (molecules v)[slot d := product r]\<rparr>) \<and>
      length (molecules (snd (simulate_step v k d))) = length (molecules v) \<and>
      molecules (snd (simulate_step v k d)) ! slot d = product r \<and>
      (\<forall>i < length (molecules v). i \<noteq> slot d \<longrightarrow>
         molecules (snd (simulate_step v k d)) ! i = molecules v ! i) \<and>
      molecule_types (snd (simulate_step v k d)) = molecule_types v \<and>
      reactions (snd (simulate_step v k d)) = reactions v) \<and>
   (sampled_amounts v k d = Inr counts \<and> reactions v = pre @ r # post \<and>
    (\<forall>q \<in> set pre. can_occur q counts = Inr False) \<and> can_occur r counts = Inl e' \<longrightarrow>
      simulate_step v k d = (Inl e', v)) \<and>
   (sampled_amounts v k d = Inr counts \<and> reactions v = pre @ r # post \<and>
    (\<forall>q \<in> set pre. can_occur q counts = Inr False) \<and> can_occur r counts = Inr True \<and>
    molecules v = [] \<longrightarrow>
      simulate_step v k d = (Inl ValueError, v)) \<and>
   (fst (simulate_step v k d) = Inl e \<longrightarrow> snd (simulate_step v k d) = v)"
proof (intro conjI impI)
  assume h: "sampled_amounts v k d = Inr counts \<and> reactions v = pre @ r # post \<and>
    (\<forall>q \<in> set pre. can_occur q counts = Inr False) \<and> can_occur r counts = Inr True \<and>
    slot d < length (molecules v)"
  then have ne: "molecules v \<noteq> []" by auto
  from h have "simulate_step v k d = react_loop (pre @ r # post) counts (slot d) v"
    by (simp add: simulate_step_sampled)
  also from h ne have "\<dots> = (Inr (), v\<lparr>molecules := (molecules v)[slot d := product r]\<rparr>)"
    by (intro react_loop_match) simp_all
  finally show st: "simulate_step v k d =
      (Inr (), v\<lparr>molecules := (molecules v)[slot d := product r]\<rparr>)" .
  show "length (molecules (snd (simulate_step v k d))) = length (molecules v)"
    by (simp add: st)
  from h show "molecules (snd (simulate_step v k d)) ! slot d = product r"
    by (simp add: st)
  show "\<forall>i < length (molecules v). i \<noteq> slot d \<longrightarrow>
         molecules (snd (simulate_step v k d)) ! i = molecules v ! i"
    by (simp add: st)
  show "molecule_types (snd (simulate_step v k d)) = molecule_types v"
    by (simp add: st)
  show "reactions (snd (simulate_step v k d)) = reactions v"
    by (simp add: st)
next
  assume h: "sampled_amounts v k d = Inr counts \<and> reactions v = pre @ r # post \<and>
    (\<forall>q \<in> set pre. can_occur q counts = Inr False) \<and> can_occur r counts = Inl e'"
  then have "simulate_step v k d = react_loop (pre @ r # post) counts (slot d) v"
    by (simp add: simulate_step_sampled)
  also from h have "\<dots> = (Inl e', v)" by (intro react_loop_raise) simp_all
  finally show "simulate_step v k d = (Inl e', v)" .
next
  assume h: "sampled_amounts v k d = Inr counts \<and> reactions v = pre @ r # post \<and>
    (\<forall>q \<in> set pre. can_occur q counts = Inr False) \<and> can_occur r counts = Inr True \<and>
    molecules v = []"
  then have "simulate_step v k d = react_loop (pre @ r # post) counts (slot d) v"
    by (simp add: simulate_step_sampled)
  also from h have "\<dots> = (Inl ValueError, v)"
    by (intro react_loop_empty_population) simp_all
  finally show "simulate_step v k d = (Inl ValueError, v)" .
next
  assume "fst (simulate_step v k d) = Inl e"
  then show "snd (simulate_step v k d) = v" by (rule simulate_step_error)
qed

theorem step_overwrites_one_slot_witness:
  "simulate_step small_vessel 2 \<lparr>positions = [0, 2], slot = 1\<rparr> =
     (Inr (), small_vessel\<lparr>molecules := (molecules small_vessel)[1 := mol_B]\<rparr>) \<and>
   molecules (snd (simulate_step small_vessel 2 \<lparr>positions = [0, 2], slot = 1\<rparr>)) ! 1 = mol_B \<and>
   simulate_step partial_vessel 2 \<lparr>positions = [0, 2], slot = 3\<rparr> = (Inl KeyError, partial_vessel) \<and>
   simulate_step empty_vessel 0 \<lparr>positions = [], slot = 0\<rparr> = (Inl ValueError, empty_vessel) \<and>
   fst (simulate_step partial_vessel 5 \<lparr>positions = [0, 2], slot = 3\<rparr>) = Inl ValueError \<and>
   snd (simulate_step partial_vessel 5 \<lparr>positions = [0, 2], slot = 3\<rparr>) = partial_vessel"
proof -
  let ?r1 = "\<lparr>reactants_needed = [(mol_A, 2), (mol_B, 0)], product = mol_B\<rparr>"
  let ?r2 = "\<lparr>reactants_needed = [(mol_A, 1), (mol_B, 1)], product = mol_B\<rparr>"
  let ?r4 = "\<lparr>reactants_needed = [(mol_A, 0), (mol_B, 2)], product = mol_A\<rparr>"
  let ?p1 = "\<lparr>reactants_needed = [], product = mol_B\<rparr>"
  let ?p2 = "\<lparr>reactants_needed = [(mol_A, 0), (mol_B, 0)], product = mol_A\<rparr>"
  let ?d = "\<lparr>positions = [0, 2], slot = 1\<rparr>"
  let ?c = "[(mol_A, 1), (mol_B, 1)]"
  have a: "sampled_amounts small_vessel 2 ?d = Inr ?c"
    "reactions small_vessel = [?r1] @ ?r2 # [?r2, ?r4]"
    "\<forall>q \<in> set [?r1]. can_occur q ?c = Inr False" "can_occur ?r2 ?c = Inr True"
    "slot ?d < length (molecules small_vessel)"
    by code_simp+
  from step_overwrites_one_slot[of small_vessel 2 ?d ?c "[?r1]" ?r2 "[?r2, ?r4]"] a
  have c1: "simulate_step small_vessel 2 ?d =
      (Inr (), small_vessel\<lparr>molecules := (molecules small_vessel)[1 := mol_B]\<rparr>)"
    "molecules (snd (simulate_step small_vessel 2 ?d)) ! 1 = mol_B"
    by simp_all
  have b: "sampled_amounts partial_vessel 2 \<lparr>positions = [0, 2], slot = 3\<rparr> = Inr ?c"
    "reactions partial_vessel = [] @ ?p1 # [?p2]" "can_occur ?p1 ?c = Inl KeyError"
    by code_simp+
  from step_overwrites_one_slot[of partial_vessel 2 "\<lparr>positions = [0, 2], slot = 3\<rparr>" ?c
      "[]" ?p1 "[?p2]" KeyError] b
  have c2: "simulate_step partial_vessel 2 \<lparr>positions = [0, 2], slot = 3\<rparr> =
      (Inl KeyError, partial_vessel)" by simp
  have e: "sampled_amounts empty_vessel 0 \<lparr>positions = [], slot = 0\<rparr> = Inr [(mol_A, 0), (mol_B, 0)]"
    "reactions empty_vessel = [] @ ?p2 # []" "can_occur ?p2 [(mol_A, 0), (mol_B, 0)] = Inr True"
    "molecules empty_vessel = []"
    by code_simp+
  from step_overwrites_one_slot[of empty_vessel 0 "\<lparr>positions = [], slot = 0\<rparr>"
      "[(mol_A, 0), (mol_B, 0)]" "[]" ?p2 "[]"] e
  have c3: "simulate_step empty_vessel 0 \<lparr>positions = [], slot = 0\<rparr> = (Inl ValueError, empty_vessel)"
    by simp
  have f: "fst (simulate_step partial_vessel 5 \<lparr>positions = [0, 2], slot = 3\<rparr>) = Inl ValueError"
    by code_simp
  from step_overwrites_one_slot[of partial_vessel 5 "\<lparr>positions = [0, 2], slot = 3\<rparr>" _ _ _ _ _ ValueError] f
  have c4: "snd (simulate_step partial_vessel 5 \<lparr>positions = [0, 2], slot = 3\<rparr>) = partial_vessel"
    by blast
  from c1 c2 c3 f c4 show ?thesis by simp
qed

text \<open>
  C3, as stated, fails: in \<open>partial_vessel\<close> the first rule has an empty requirement, so
  its \<open>can_occur\<close> raises \<open>KeyError\<close> on the tallied counts. The first rule whose
  \<open>can_occur\<close> returns true is the second one, with product \<open>A\<close>, yet the step aborts
  and leaves the population as it was (position 3 still holds \<open>B\<close>).
\<close>

theorem first_match_counterexample:
  "sampled_amounts partial_vessel 2 \<lparr>positions = [0, 2], slot = 3\<rparr> =
     Inr [(mol_A, 1), (mol_B, 1)] \<and>
   firstMatch (reactions partial_vessel) [(mol_A, 1), (mol_B, 1)] =
     Some \<lparr>reactants_needed = [(mol_A, 0), (mol_B, 0)], product = mol_A\<rparr> \<and>
   simulate_step partial_vessel 2 \<lparr>positions = [0, 2], slot = 3\<rparr> =
     (Inl KeyError, partial_vessel) \<and>
   molecules partial_vessel \<noteq> (molecules partial_vessel)[3 := mol_A]"
  by code_simp

text \<open>
  C3, amended. With the counts tallied by the step: the rule applied is the first rule in
  table order whose \<open>can_occur\<close> returns true, provided every rule before it returns
  false and the population is not empty; when the first rule that does not return false
  raises, the step raises the same error and the vessel is unchanged; when no rule
  returns true, the vessel is unchanged.
\<close>

theorem first_match_applied:
  assumes "sampled_amounts v k d = Inr counts"
  shows "(\<forall>pre r post. reactions v = pre @ r # post \<and>
            (\<forall>q \<in> set pre. can_occur q counts = Inr False) \<and>
            can_occur r counts = Inr True \<and> molecules v \<noteq> [] \<longrightarrow>
            simulate_step v k d = (Inr (), v\<lparr>molecules := (molecules v)[slot d := product r]\<rparr>)) \<and>
         (\<forall>pre r post e. reactions v = pre @ r # post \<and>
            (\<forall>q \<in> set pre. can_occur q counts = Inr False) \<and>
            can_occur r counts = Inl e \<longrightarrow>
            simulate_step v k d = (Inl e, v)) \<and>
         ((\<forall>q \<in> set (reactions v). can_occur q counts \<noteq> Inr True) \<longrightarrow>
            snd (simulate_step v k d) = v)"
  using assms by (simp add: simulate_step_sampled react_loop_match react_loop_raise react_loop_no_match)

theorem first_match_applied_witness:
  "sampled_amounts small_vessel 2 \<lparr>positions = [0, 2], slot = 1\<rparr> = Inr [(mol_A, 1), (mol_B, 1)] \<and>
   simulate_step small_vessel 2 \<lparr>positions = [0, 2], slot = 1\<rparr> =
     (Inr (), small_vessel\<lparr>molecules := (molecules small_vessel)[1 := mol_B]\<rparr>) \<and>
   sampled_amounts partial_vessel 2 \<lparr>positions = [0, 2], slot = 3\<rparr> = Inr [(mol_A, 1), (mol_B, 1)] \<and>
   simulate_step partial_vessel 2 \<lparr>positions = [0, 2], slot = 3\<rparr> = (Inl KeyError, partial_vessel) \<and>
   sampled_amounts small_vessel 1 \<lparr>positions = [0], slot = 3\<rparr> = Inr [(mol_A, 1), (mol_B, 0)] \<and>
   snd (simulate_step small_vessel 1 \<lparr>positions = [0], slot = 3\<rparr>) = small_vessel"
proof -
  let ?r1 = "\<lparr>reactants_needed = [(mol_A, 2), (mol_B, 0)], product = mol_B\<rparr>"
  let ?r2 = "\<lparr>reactants_needed = [(mol_A, 1), (mol_B, 1)], product = mol_B\<rparr>"
  let ?r4 = "\<lparr>reactants_needed = [(mol_A, 0), (mol_B, 2)], product = mol_A\<rparr>"
  let ?p1 = "\<lparr>reactants_needed = [], product = mol_B\<rparr>"
  let ?p2 = "\<lparr>reactants_needed = [(mol_A, 0), (mol_B, 0)], product = mol_A\<rparr>"
  let ?c = "[(mol_A, 1), (mol_B, 1)]"
  have s1: "sampled_amounts small_vessel 2 \<lparr>positions = [0, 2], slot = 1\<rparr> = Inr ?c"
    by code_simp
  have a1: "reactions small_vessel = [?r1] @ ?r2 # [?r2, ?r4]" by code_simp
  have a2: "\<forall>q \<in> set [?r1]. can_occur q ?c = Inr False" by code_simp
  have a3: "can_occur ?r2 ?c = Inr True" by code_simp
  have a4: "molecules small_vessel \<noteq> []" by code_simp
  from first_match_applied[OF s1] a1 a2 a3 a4
  have c1: "simulate_step small_vessel 2 \<lparr>positions = [0, 2], slot = 1\<rparr> =
     (Inr (), small_vessel\<lparr>molecules := (molecules small_vessel)[slot \<lparr>positions = [0, 2], slot = 1\<rparr> := product ?r2]\<rparr>)"
    by blast
  have s2: "sampled_amounts partial_vessel 2 \<lparr>positions = [0, 2], slot = 3\<rparr> = Inr ?c"
    by code_simp
  have b1: "reactions partial_vessel = [] @ ?p1 # [?p2]" by code_simp
  have b2: "\<forall>q \<in> set []. can_occur q ?c = Inr False" by simp
  have b3: "can_occur ?p1 ?c = Inl KeyError" by code_simp
  from first_match_applied[OF s2] b1 b2 b3
  have c2: "simulate_step partial_vessel 2 \<lparr>positions = [0, 2], slot = 3\<rparr> = (Inl KeyError, partial_vessel)"
    by blast
  have s3: "sampled_amounts small_vessel 1 \<lparr>positions = [0], slot = 3\<rparr> = Inr [(mol_A, 1), (mol_B, 0)]"
    by code_simp
  have d1: "\<forall>q \<in> set (reactions small_vessel). can_occur q [(mol_A, 1), (mol_B, 0)] \<noteq> Inr True"
    by code_simp
  from first_match_applied[OF s3] d1
  have c3: "snd (simulate_step small_vessel 1 \<lparr>positions = [0], slot = 3\<rparr>) = small_vessel"
    by blast
  from s1 c1 s2 c2 s3 c3 show ?thesis by simp
qed

text \<open>
  C2, as stated, fails: with an empty requirement and counts over the declared types
  \<open>A\<close> and \<open>B\<close>, \<open>can_occur\<close> raises \<open>KeyError\<close> at the first key of the counts
  instead of returning true.
\<close>

theorem can_occur_empty_requirement_counterexample:
  "can_occur \<lparr>reactants_needed = [], product = mol_B\<rparr> [(mol_A, 2), (mol_B, 0)] = Inl KeyError"
  by code_simp

text \<open>
  C2, amended. When the requirement and the counts are dictionaries over the same keys
  (both total over the declared types), \<open>can_occur\<close> returns true if and only if
  \<open>counts[type] >= requiredAmount\<close> for every pair of the requirement. With an empty
  requirement it returns true only for empty counts, and raises \<open>KeyError\<close> for all
  others.
\<close>

theorem can_occur_same_keys:
  "(distinct (map fst counts) \<and> distinct (map fst (reactants_needed r)) \<and>
    fst ` set counts = fst ` set (reactants_needed r) \<longrightarrow>
      can_occur r counts =
        Inr (\<forall>(t, n) \<in> set (reactants_needed r). \<exists>a. map_of counts t = Some a \<and> n \<le> a)) \<and>
   (reactants_needed r = [] \<longrightarrow>
      can_occur r counts = (if counts = [] then Inr True else Inl KeyError))"
proof (intro conjI impI)
  assume h: "distinct (map fst counts) \<and> distinct (map fst (reactants_needed r)) \<and>
    fst ` set counts = fst ` set (reactants_needed r)"
  then have "fst ` set counts \<subseteq> fst ` set (reactants_needed r)" by simp
  from can_occur_loop_total[OF this]
  have "can_occur r counts =
     Inr (\<forall>(t, a) \<in> set counts. \<exists>n. map_of (reactants_needed r) t = Some n \<and> n \<le> a)"
    by (simp add: can_occur_def)
  moreover from h have "(\<forall>(t, a) \<in> set counts. \<exists>n. map_of (reactants_needed r) t = Some n \<and> n \<le> a) \<longleftrightarrow>
     (\<forall>(t, n) \<in> set (reactants_needed r). \<exists>a. map_of counts t = Some a \<and> n \<le> a)"
    by (intro same_keys_requirement) simp_all
  ultimately show "can_occur r counts =
        Inr (\<forall>(t, n) \<in> set (reactants_needed r). \<exists>a. map_of counts t = Some a \<and> n \<le> a)"
    by simp
next
  assume "reactants_needed r = []"
  then show "can_occur r counts = (if counts = [] then Inr True else Inl KeyError)"
    by (simp add: can_occur_def can_occur_loop_empty_needed)
qed

theorem can_occur_same_keys_witness:
  "distinct (map fst [(mol_A, 1 :: int), (mol_B, 1)]) \<and>
   distinct (map fst (reactants_needed \<lparr>reactants_needed = [(mol_A, 1), (mol_B, 1)], product = mol_B\<rparr>)) \<and>
   fst ` set [(mol_A, 1 :: int), (mol_B, 1)] =
     fst ` set (reactants_needed \<lparr>reactants_needed = [(mol_A, 1), (mol_B, 1)], product = mol_B\<rparr>) \<and>
   can_occur \<lparr>reactants_needed = [(mol_A, 1), (mol_B, 1)], product = mol_B\<rparr> [(mol_A, 1), (mol_B, 1)] =
     Inr True \<and>
   reactants_needed \<lparr>reactants_needed = [], product = mol_B\<rparr> = [] \<and>
   can_occur \<lparr>reactants_needed = [], product = mol_B\<rparr> [(mol_A, 2), (mol_B, 0)] = Inl KeyError \<and>
   can_occur \<lparr>reactants_needed = [], product = mol_B\<rparr> [] = Inr True"
proof -
  let ?r = "\<lparr>reactants_needed = [(mol_A, 1), (mol_B, 1)], product = mol_B\<rparr>"
  let ?c = "[(mol_A, 1 :: int), (mol_B, 1)]"
  let ?e = "\<lparr>reactants_needed = [], product = mol_B\<rparr>"
  have h1: "distinct (map fst ?c)" by code_simp
  have h2: "distinct (map fst (reactants_needed ?r))" by code_simp
  have h3: "fst ` set ?c = fst ` set (reactants_needed ?r)" by simp
  have h4: "reactants_needed ?e = []" by simp
  have v: "(\<forall>(t, n) \<in> set (reactants_needed ?r). \<exists>a. map_of ?c t = Some a \<and> n \<le> a)"
    by (simp add: mol_A_def mol_B_def)
  from can_occur_same_keys[of ?c ?r] h1 h2 h3 v
  have c1: "can_occur ?r ?c = Inr True" by simp
  from can_occur_same_keys[of "[(mol_A, 2), (mol_B, 0)]" ?e] h4
  have c2: "can_occur ?e [(mol_A, 2), (mol_B, 0)] = Inl KeyError" by simp
  from can_occur_same_keys[of "[]" ?e] h4
  have c3: "can_occur ?e [] = Inr True" by simp
  from h1 h2 h3 h4 c1 c2 c3 show ?thesis by blast
qed


text \<open>
  C10, as stated, fails: the counts hold the type \<open>B\<close>, which has no entry in the
  requirement, yet \<open>can_occur\<close> raises nothing: the entry for \<open>A\<close> comes first in the
  counts and is below its required amount, so the call returns false before it reaches
  \<open>B\<close>.
\<close>

theorem can_occur_missing_key_counterexample:
  "map_of (reactants_needed \<lparr>reactants_needed = [(mol_A, 1)], product = mol_B\<rparr>) mol_B = None \<and>
   can_occur \<lparr>reactants_needed = [(mol_A, 1)], product = mol_B\<rparr> [(mol_A, 0), (mol_B, 1)] = Inr False"
  by code_simp

text \<open>
  C10, amended. \<open>can_occur\<close> iterates over the items of the counts, in their order, and
  stops at the first entry that is not met. If that entry has a type with no entry in
  the requirement, the call raises \<open>KeyError\<close>; if it has an amount below its required
  amount, the call returns false, whatever follows it in the counts, also a type that
  the requirement lacks. The call returns true exactly when every entry of the counts
  has an entry in the requirement and meets it, so it never returns true when the
  counts hold a type that the requirement lacks. The entries of the requirement whose
  type is not a key of the counts are never read: two requirements that agree on the
  keys of the counts give the same result.
\<close>

theorem can_occur_iterates_counts:
  "(counts = pre @ (t, a) # post \<and> map_of (reactants_needed r) t = None \<and>
    (\<forall>(t', a') \<in> set pre. \<exists>n. map_of (reactants_needed r) t' = Some n \<and> n \<le> a') \<longrightarrow>
      can_occur r counts = Inl KeyError) \<and>
   (counts = pre @ (t, a) # post \<and> map_of (reactants_needed r) t = Some m \<and> a < m \<and>
    (\<forall>(t', a') \<in> set pre. \<exists>n. map_of (reactants_needed r) t' = Some n \<and> n \<le> a') \<longrightarrow>
      can_occur r counts = Inr False) \<and>
   (can_occur r counts = Inr True \<longleftrightarrow>
      (\<forall>(t', a') \<in> set counts. \<exists>n. map_of (reactants_needed r) t' = Some n \<and> n \<le> a')) \<and>
   ((\<exists>(t', a') \<in> set counts. map_of (reactants_needed r) t' = None) \<longrightarrow>
      can_occur r counts = Inl KeyError \<or> can_occur r counts = Inr False) \<and>
   ((\<forall>t' \<in> fst ` set counts. map_of (reactants_needed r) t' = map_of (reactants_needed r') t') \<longrightarrow>
      can_occur r counts = can_occur r' counts)"
proof (intro conjI impI)
  assume h: "counts = pre @ (t, a) # post \<and> map_of (reactants_needed r) t = None \<and>
    (\<forall>(t', a') \<in> set pre. \<exists>n. map_of (reactants_needed r) t' = Some n \<and> n \<le> a')"
  then have "can_occur_loop (reactants_needed r) pre = Inr True"
    by (simp add: can_occur_loop_True_iff)
  then have "can_occur_loop (reactants_needed r) (pre @ (t, a) # post) =
             can_occur_loop (reactants_needed r) ((t, a) # post)"
    by (rule can_occur_loop_append)
  with h show "can_occur r counts = Inl KeyError" by (simp add: can_occur_def)
next
  assume h: "counts = pre @ (t, a) # post \<and> map_of (reactants_needed r) t = Some m \<and> a < m \<and>
    (\<forall>(t', a') \<in> set pre. \<exists>n. map_of (reactants_needed r) t' = Some n \<and> n \<le> a')"
  then have "can_occur_loop (reactants_needed r) pre = Inr True"
    by (simp add: can_occur_loop_True_iff)
  from can_occur_loop_below[OF this, of t m a post] h
  show "can_occur r counts = Inr False" by (simp add: can_occur_def)
next
  show "can_occur r counts = Inr True \<longleftrightarrow>
      (\<forall>(t', a') \<in> set counts. \<exists>n. map_of (reactants_needed r) t' = Some n \<and> n \<le> a')"
    unfolding can_occur_def by (rule can_occur_loop_True_iff)
next
  assume "\<exists>(t', a') \<in> set counts. map_of (reactants_needed r) t' = None"
  then show "can_occur r counts = Inl KeyError \<or> can_occur r counts = Inr False"
    unfolding can_occur_def by (rule can_occur_loop_missing)
next
  assume "\<forall>t' \<in> fst ` set counts. map_of (reactants_needed r) t' = map_of (reactants_needed r') t'"
  then show "can_occur r counts = can_occur r' counts"
    unfolding can_occur_def by (rule can_occur_loop_cong)
qed

theorem can_occur_iterates_counts_witness:
  "map_of (reactants_needed \<lparr>reactants_needed = [(mol_A, 1)], product = mol_B\<rparr>) mol_B = None \<and>
   can_occur \<lparr>reactants_needed = [(mol_A, 1)], product = mol_B\<rparr> [(mol_A, 1), (mol_B, 1)] =
     Inl KeyError \<and>
   can_occur \<lparr>reactants_needed = [(mol_A, 1)], product = mol_B\<rparr> [(mol_A, 0), (mol_B, 1)] =
     Inr False \<and>
   can_occur \<lparr>reactants_needed = [(mol_A, 1), (mol_B, 1)], product = mol_B\<rparr>
      [(mol_A, 1), (mol_B, 1)] = Inr True \<and>
   can_occur \<lparr>reactants_needed = [(mol_A, 1), (mol_B, 1)], product = mol_B\<rparr>
      [(mol_A, 1), (mol_B, 1)] =
   can_occur \<lparr>reactants_needed = [(mol_A, 1), (mol_B, 1), (mol_C, 5)], product = mol_B\<rparr>
      [(mol_A, 1), (mol_B, 1)]"
proof -
  let ?r = "\<lparr>reactants_needed = [(mol_A, 1)], product = mol_B\<rparr>"
  let ?s = "\<lparr>reactants_needed = [(mol_A, 1), (mol_B, 1)], product = mol_B\<rparr>"
  let ?s' = "\<lparr>reactants_needed = [(mol_A, 1), (mol_B, 1), (mol_C, 5)], product = mol_B\<rparr>"
  have h1: "[(mol_A, 1 :: int), (mol_B, 1)] = [(mol_A, 1)] @ (mol_B, 1) # []" by simp
  have h2: "map_of (reactants_needed ?r) mol_B = None" by code_simp
  have h3: "\<forall>(t', a') \<in> set [(mol_A, 1 :: int)]. \<exists>n. map_of (reactants_needed ?r) t' = Some n \<and> n \<le> a'"
    by simp
  from can_occur_iterates_counts[of "[(mol_A, 1), (mol_B, 1)]" "[(mol_A, 1)]" mol_B 1 "[]" ?r] h1 h2 h3
  have c1: "can_occur ?r [(mol_A, 1), (mol_B, 1)] = Inl KeyError" by blast
  have g1: "[(mol_A, 0 :: int), (mol_B, 1)] = [] @ (mol_A, 0) # [(mol_B, 1)]" by simp
  have g2: "map_of (reactants_needed ?r) mol_A = Some 1" by simp
  have g3: "(0 :: int) < 1" by simp
  have g4: "\<forall>(t', a') \<in> set ([] :: (Molecule \<times> int) list).
              \<exists>n. map_of (reactants_needed ?r) t' = Some n \<and> n \<le> a'" by simp
  from can_occur_iterates_counts[of "[(mol_A, 0), (mol_B, 1)]" "[]" mol_A 0 "[(mol_B, 1)]" ?r 1]
    g1 g2 g3 g4
  have c2: "can_occur ?r [(mol_A, 0), (mol_B, 1)] = Inr False" by blast
  have h4: "\<forall>(t', a') \<in> set [(mol_A, 1 :: int), (mol_B, 1)].
              \<exists>n. map_of (reactants_needed ?s) t' = Some n \<and> n \<le> a'"
    by (simp add: mol_A_def mol_B_def)
  from can_occur_iterates_counts[of "[(mol_A, 1), (mol_B, 1)]" _ _ _ _ ?s] h4
  have c3: "can_occur ?s [(mol_A, 1), (mol_B, 1)] = Inr True" by blast
  have h5: "\<forall>t' \<in> fst ` set [(mol_A, 1 :: int), (mol_B, 1)].
              map_of (reactants_needed ?s) t' = map_of (reactants_needed ?s') t'"
    by (simp add: mol_A_def mol_B_def mol_C_def)
  from can_occur_iterates_counts[of "[(mol_A, 1), (mol_B, 1)]" _ _ _ _ ?s _ ?s'] h5
  have c4: "can_occur ?s [(mol_A, 1), (mol_B, 1)] = can_occur ?s' [(mol_A, 1), (mol_B, 1)]"
    by blast
  from h2 c1 c2 c3 c4 show ?thesis by blast
qed


text \<open>
  C7, as stated, fails. \<open>undeclared_vessel\<close> is built from initial amounts that omit the
  declared type \<open>B\<close> and from a rule that names the undeclared type \<open>C\<close> in its
  requirement and as its product; its first step is run with the sample size 0. The
  constructor returns a vessel, that step returns normally and writes \<open>C\<close> into the
  population, and the first error is a \<open>KeyError\<close> raised by a later step, which
  samples that \<open>C\<close>.
\<close>

theorem invalid_configuration_counterexample:
  "undeclared_vessel =
     \<lparr>molecule_types = [mol_A, mol_B], molecules = [mol_A, mol_A],
      reactions = [undeclared_reaction]\<rparr> \<and>
   simulate_step undeclared_vessel 0 \<lparr>positions = [], slot = 0\<rparr> =
     (Inr (), \<lparr>molecule_types = [mol_A, mol_B], molecules = [mol_C, mol_A],
               reactions = [undeclared_reaction]\<rparr>) \<and>
   simulate_step \<lparr>molecule_types = [mol_A, mol_B], molecules = [mol_C, mol_A],
                   reactions = [undeclared_reaction]\<rparr> 1 \<lparr>positions = [0], slot = 0\<rparr> =
     (Inl KeyError, \<lparr>molecule_types = [mol_A, mol_B], molecules = [mol_C, mol_A],
                     reactions = [undeclared_reaction]\<rparr>)"
  by code_simp

text \<open>
  C7, amended. Constructing a vessel validates nothing and cannot fail: the constructor
  stores the declared types and the rules as they are given, and the population is the
  initial amounts expanded in their order, each type repeated as often as its amount
  says. Of the listed configurations only a sample size below 0 or above the
  population size is rejected, and only when a step runs: \<open>simulate_step\<close> raises
  \<open>ValueError\<close> and leaves the vessel unchanged. The others raise nothing in a step:
  on a vessel constructed from amounts over declared types (which may omit declared
  types), with a population that is not empty and rules whose requirement has an
  entry for every declared type (and may have entries for undeclared types), a step
  with any sample size from 0 to the population size returns normally and applies the
  first satisfied rule, whatever its product. A product that is not declared is
  written into the population like any other, and a later step that samples it raises
  \<open>KeyError\<close> and leaves the vessel unchanged.
\<close>

theorem configuration_not_validated:
  "molecule_types (Vessel_init types amts rs) = types \<and>
   reactions (Vessel_init types amts rs) = rs \<and>
   molecules (Vessel_init types [] rs) = [] \<and>
   molecules (Vessel_init types ((m, n) # amts) rs) =
     replicate (nat n) m @ molecules (Vessel_init types amts rs) \<and>
   (k < 0 \<or> int (length (molecules v)) < k \<longrightarrow>
      simulate_step v k d = (Inl ValueError, v)) \<and>
   (fst ` set amts \<subseteq> set types \<and> molecules (Vessel_init types amts rs) \<noteq> [] \<and>
    list_all (\<lambda>r. set types \<subseteq> fst ` set (reactants_needed r)) rs \<and>
    valid_draw (Vessel_init types amts rs) k d \<longrightarrow>
      (\<exists>counts. sampled_amounts (Vessel_init types amts rs) k d = Inr counts \<and>
         simulate_step (Vessel_init types amts rs) k d =
           (Inr (), case firstMatch rs counts of
                      None \<Rightarrow> Vessel_init types amts rs
                    | Some r \<Rightarrow> (Vessel_init types amts rs)
                        \<lparr>molecules := (molecules (Vessel_init types amts rs))[slot d := product r]\<rparr>))) \<and>
   (0 \<le> k \<and> k \<le> int (length (molecules v)) \<and>
    (\<exists>i \<in> set (positions d). molecules v ! i \<notin> set (molecule_types v)) \<longrightarrow>
      simulate_step v k d = (Inl KeyError, v))"
proof (intro conjI impI)
  show "molecule_types (Vessel_init types amts rs) = types"
    and "reactions (Vessel_init types amts rs) = rs"
    and "molecules (Vessel_init types [] rs) = []"
    and "molecules (Vessel_init types ((m, n) # amts) rs) =
           replicate (nat n) m @ molecules (Vessel_init types amts rs)"
    by (simp_all add: Vessel_init_def)
next
  assume "k < 0 \<or> int (length (molecules v)) < k"
  then show "simulate_step v k d = (Inl ValueError, v)"
    by (auto simp: simulate_step_def random_sample_def)
next
  let ?v = "Vessel_init types amts rs"
  assume h: "fst ` set amts \<subseteq> set types \<and> molecules ?v \<noteq> [] \<and>
    list_all (\<lambda>r. set types \<subseteq> fst ` set (reactants_needed r)) rs \<and> valid_draw ?v k d"
  have ty: "molecule_types ?v = types" and re: "reactions ?v = rs"
    by (simp_all add: Vessel_init_def)
  from Vessel_init_population[of types amts rs] h
  have sub: "set (molecules ?v) \<subseteq> set (molecule_types ?v)" by (auto simp: ty)
  from h have cov: "list_all (\<lambda>r. set (molecule_types ?v) \<subseteq> fst ` set (reactants_needed r))
      (reactions ?v)" by (simp add: ty re)
  from h have ne: "molecules ?v \<noteq> []" and vd: "valid_draw ?v k d" by simp_all
  from step_returns[OF sub ne cov vd]
  show "\<exists>counts. sampled_amounts ?v k d = Inr counts \<and>
         simulate_step ?v k d =
           (Inr (), case firstMatch rs counts of
                      None \<Rightarrow> ?v
                    | Some r \<Rightarrow> ?v\<lparr>molecules := (molecules ?v)[slot d := product r]\<rparr>)"
    by (simp add: re)
next
  assume "0 \<le> k \<and> k \<le> int (length (molecules v)) \<and>
    (\<exists>i \<in> set (positions d). molecules v ! i \<notin> set (molecule_types v))"
  then show "simulate_step v k d = (Inl KeyError, v)"
    by (intro step_samples_undeclared) simp_all
qed

theorem configuration_not_validated_witness:
  "molecules undeclared_vessel = replicate 2 mol_A @ [] \<and>
   int (length (molecules undeclared_vessel)) < 5 \<and>
   simulate_step undeclared_vessel 5 \<lparr>positions = [0, 1], slot = 0\<rparr> =
     (Inl ValueError, undeclared_vessel) \<and>
   valid_draw undeclared_vessel 0 \<lparr>positions = [], slot = 0\<rparr> \<and>
   (\<exists>counts. sampled_amounts undeclared_vessel 0 \<lparr>positions = [], slot = 0\<rparr> = Inr counts \<and>
      simulate_step undeclared_vessel 0 \<lparr>positions = [], slot = 0\<rparr> =
        (Inr (), case firstMatch [undeclared_reaction] counts of
                   None \<Rightarrow> undeclared_vessel
                 | Some r \<Rightarrow> undeclared_vessel
                     \<lparr>molecules := (molecules undeclared_vessel)
                          [slot \<lparr>positions = [], slot = 0\<rparr> := product r]\<rparr>)) \<and>
   simulate_step \<lparr>molecule_types = [mol_A, mol_B], molecules = [mol_C, mol_A],
                   reactions = [undeclared_reaction]\<rparr> 1 \<lparr>positions = [0], slot = 0\<rparr> =
     (Inl KeyError, \<lparr>molecule_types = [mol_A, mol_B], molecules = [mol_C, mol_A],
                     reactions = [undeclared_reaction]\<rparr>)"
proof -
  let ?v1 = "\<lparr>molecule_types = [mol_A, mol_B], molecules = [mol_C, mol_A],
             reactions = [undeclared_reaction]\<rparr>"
  let ?d0 = "\<lparr>positions = [], slot = 0\<rparr>"
  have e: "molecules (Vessel_init [mol_A, mol_B] [] [undeclared_reaction]) = []"
    using configuration_not_validated[of "[mol_A, mol_B]" "[]" "[undeclared_reaction]" mol_A 2 0
      undeclared_vessel ?d0] by simp
  have c0: "molecules undeclared_vessel = replicate 2 mol_A @ []"
    using configuration_not_validated[of "[mol_A, mol_B]" "[]" "[undeclared_reaction]" mol_A 2 0
      undeclared_vessel ?d0] e
    by (simp add: undeclared_vessel_def)
  then have h1: "int (length (molecules undeclared_vessel)) < 5" by simp
  from configuration_not_validated[of "[]" "[]" "[]" mol_A 0 5 undeclared_vessel
      "\<lparr>positions = [0, 1], slot = 0\<rparr>"] h1
  have c1: "simulate_step undeclared_vessel 5 \<lparr>positions = [0, 1], slot = 0\<rparr> =
      (Inl ValueError, undeclared_vessel)" by blast
  have a1: "fst ` set [(mol_A, 2 :: int)] \<subseteq> set [mol_A, mol_B]" by simp
  have a2: "molecules (Vessel_init [mol_A, mol_B] [(mol_A, 2)] [undeclared_reaction]) \<noteq> []"
    using c0 by (simp add: undeclared_vessel_def)
  have a3: "list_all (\<lambda>r. set [mol_A, mol_B] \<subseteq> fst ` set (reactants_needed r)) [undeclared_reaction]"
    by (simp add: undeclared_reaction_def)
  have a4: "valid_draw undeclared_vessel 0 ?d0"
    using c0 by (simp add: valid_draw_def)
  have c2: "\<exists>counts. sampled_amounts undeclared_vessel 0 ?d0 = Inr counts \<and>
      simulate_step undeclared_vessel 0 ?d0 =
        (Inr (), case firstMatch [undeclared_reaction] counts of
                   None \<Rightarrow> undeclared_vessel
                 | Some r \<Rightarrow> undeclared_vessel
                     \<lparr>molecules := (molecules undeclared_vessel)
                          [slot \<lparr>positions = [], slot = 0\<rparr> := product r]\<rparr>)"
    using configuration_not_validated[of "[mol_A, mol_B]" "[(mol_A, 2)]" "[undeclared_reaction]"
        mol_A 0 0 undeclared_vessel ?d0] a1 a2 a3 a4
    unfolding undeclared_vessel_def by simp
  have b: "(0 :: int) \<le> 1" "1 \<le> int (length (molecules ?v1))"
    "\<exists>i \<in> set (positions \<lparr>positions = [0 :: nat], slot = 0 :: nat\<rparr>).
       molecules ?v1 ! i \<notin> set (molecule_types ?v1)"
    by (simp_all add: mol_A_def mol_B_def mol_C_def)
  from configuration_not_validated[of "[]" "[]" "[]" mol_A 0 1 ?v1 "\<lparr>positions = [0], slot = 0\<rparr>"] b
  have c3: "simulate_step ?v1 1 \<lparr>positions = [0], slot = 0\<rparr> = (Inl KeyError, ?v1)"
    by blast
  from c0 h1 c1 a4 c2 c3 show ?thesis by blast
qed

text \<open>
  C8, as stated, fails. A run of one iteration makes one call of \<open>simulate_step\<close> on
  \<open>small_vessel\<close>, which returns normally; a further call on the vessel it leaves
  returns normally as well and replaces the molecule at position 1.
\<close>

theorem step_after_run_counterexample:
  "simulate_steps small_vessel 2 [\<lparr>positions = [0, 2], slot = 1\<rparr>] =
     (Inr (), \<lparr>molecule_types = [mol_A, mol_B], molecules = [mol_A, mol_B, mol_B, mol_B],
               reactions = basic_reactions\<rparr>) \<and>
   simulate_step \<lparr>molecule_types = [mol_A, mol_B], molecules = [mol_A, mol_B, mol_B, mol_B],
                   reactions = basic_reactions\<rparr> 2 \<lparr>positions = [1, 2], slot = 1\<rparr> =
     (Inr (), \<lparr>molecule_types = [mol_A, mol_B], molecules = [mol_A, mol_A, mol_B, mol_B],
               reactions = basic_reactions\<rparr>)"
  by code_simp

text \<open>
  C8, amended. A vessel counts no steps and has no Done state; the number of iterations
  exists only in the loop of the caller. On a well-formed vessel, with draws the random
  generator can return, every call of a sequence of calls of \<open>simulate_step\<close>, however
  long, returns normally, and a further call on the vessel the sequence leaves is a
  step like every other: it returns normally, it overwrites the position chosen by
  \<open>random.randrange\<close> with the product of the first rule satisfied by the tallied
  counts, and it leaves the vessel as it is when no rule is satisfied.
\<close>

theorem step_accepted_after_run:
  assumes "well_formed v" and "list_all (valid_draw v k) ds" and "valid_draw v k d"
  shows "fst (simulate_steps v k ds) = Inr () \<and>
         (\<exists>counts. sampled_amounts (snd (simulate_steps v k ds)) k d = Inr counts \<and>
            simulate_step (snd (simulate_steps v k ds)) k d =
              (Inr (), case firstMatch (reactions v) counts of
                         None \<Rightarrow> snd (simulate_steps v k ds)
                       | Some r \<Rightarrow> (snd (simulate_steps v k ds))
                           \<lparr>molecules :=
                              (molecules (snd (simulate_steps v k ds)))[slot d := product r]\<rparr>))"
proof -
  let ?v' = "snd (simulate_steps v k ds)"
  from simulate_steps_well_formed[OF assms(1,2)]
  have ok: "fst (simulate_steps v k ds) = Inr ()" and wf: "well_formed ?v'"
    and len: "length (molecules ?v') = length (molecules v)"
    and rs: "reactions ?v' = reactions v"
    by simp_all
  from assms(3) have vd: "valid_draw ?v' k d" by (simp add: valid_draw_length[OF len])
  from wf have sub: "set (molecules ?v') \<subseteq> set (molecule_types ?v')"
    and ne: "molecules ?v' \<noteq> []"
    and cov: "list_all (\<lambda>r. set (molecule_types ?v') \<subseteq> fst ` set (reactants_needed r))
                (reactions ?v')"
    by (simp_all add: well_formed_def list_all_iff)
  from step_returns[OF sub ne cov vd] ok rs show ?thesis by simp
qed

theorem step_accepted_after_run_witness:
  "well_formed small_vessel \<and>
   list_all (valid_draw small_vessel 2) [\<lparr>positions = [0, 2], slot = 1\<rparr>] \<and>
   valid_draw small_vessel 2 \<lparr>positions = [1, 2], slot = 1\<rparr> \<and>
   fst (simulate_steps small_vessel 2 [\<lparr>positions = [0, 2], slot = 1\<rparr>]) = Inr () \<and>
   (\<exists>counts.
      sampled_amounts (snd (simulate_steps small_vessel 2 [\<lparr>positions = [0, 2], slot = 1\<rparr>])) 2
        \<lparr>positions = [1, 2], slot = 1\<rparr> = Inr counts \<and>
      simulate_step (snd (simulate_steps small_vessel 2 [\<lparr>positions = [0, 2], slot = 1\<rparr>])) 2
        \<lparr>positions = [1, 2], slot = 1\<rparr> =
        (Inr (), case firstMatch (reactions small_vessel) counts of
                   None \<Rightarrow> snd (simulate_steps small_vessel 2 [\<lparr>positions = [0, 2], slot = 1\<rparr>])
                 | Some r \<Rightarrow> (snd (simulate_steps small_vessel 2 [\<lparr>positions = [0, 2], slot = 1\<rparr>]))
                     \<lparr>molecules :=
                        (molecules (snd (simulate_steps small_vessel 2
                           [\<lparr>positions = [0, 2], slot = 1\<rparr>])))
                        [slot \<lparr>positions = [1, 2], slot = 1\<rparr> := product r]\<rparr>))"
proof -
  have h1: "well_formed small_vessel" by code_simp
  have h2: "list_all (valid_draw small_vessel 2) [\<lparr>positions = [0, 2], slot = 1\<rparr>]"
    by code_simp
  have h3: "valid_draw small_vessel 2 \<lparr>positions = [1, 2], slot = 1\<rparr>" by code_simp
  from step_accepted_after_run[OF h1 h2 h3] h1 h2 h3 show ?thesis by blast
qed

end
